theory Spec2Isabelle
  imports Main
begin

section \<open>The Builder of src/mod.ts\<close>

text \<open>
  The class \<^verbatim>\<open>Builder\<close> is embedded by explicit state passing. Its mutable fields
  other than the task list form the record \<open>state\<close>, together with the parts of the
  process the methods act on: the file system as \<^verbatim>\<open>existsSync\<close> and \<^verbatim>\<open>statSync\<close> see
  it, the heap of option objects, and the ordered trace of observable effects (calls
  of the console, shell commands spawned, sockets opened, replies sent).
  The task list is passed beside the state, because a task handler is a function that
  itself acts on the state.

  A method either returns, terminates the process (\<^verbatim>\<open>process.exit\<close>) or throws; the
  three are the constructors of \<open>outcome\<close>. Handlers and shell commands are taken to
  finish in one of these ways.
\<close>

subsection \<open>Values, objects and the process state\<close>

datatype val = Undefined | Bool bool | Num int | Str string | Ref nat

fun truthy :: "val \<Rightarrow> bool" where
  "truthy Undefined = False"
| "truthy (Bool b) = b"
| "truthy (Num n) = (n \<noteq> 0)"
| "truthy (Str s) = (s \<noteq> [])"
| "truthy (Ref a) = True"

type_synonym obj = "string \<rightharpoonup> val"

type_synonym jsargs = "string \<rightharpoonup> val"

text \<open>What \<^verbatim>\<open>fs.statSync\<close> reports of a path: the modification time is in
  milliseconds, and \<open>None\<close> where the platform does not give one.\<close>

record stats =
  isDirectory :: bool
  mtime :: "int option"

type_synonym filesys = "string \<rightharpoonup> stats"

text \<open>The console events hold the arguments of the call, in order: \<^verbatim>\<open>console.log\<close> and
  \<^verbatim>\<open>console.error\<close> take their first argument as a format string, and what text comes
  out of the arguments is the work of the runtime's console, not of the builder.\<close>

datatype event =
    ConsoleLog "string list"
  | ConsoleError "string list"
  | ExecSync string
  | WsListen nat
  | WsSend nat
  | WsOpen string

record state =
  shouldVerbose :: bool
  args :: "nat list"
  taskStack :: "string list"
  allowExternalCommands :: bool
  heap :: "obj list"
  fsys :: filesys
  effects :: "event list"

datatype 'a outcome =
    Returned 'a state
  | Exited nat state
  | Threw string state

type_synonym TaskHandler = "jsargs \<Rightarrow> state \<Rightarrow> int outcome"

record Task =
  name :: string
  description :: string
  handler :: TaskHandler

text \<open>The constructor: every flag false, every list empty. The file system is the
  one the process starts in.\<close>

definition constructor :: "filesys \<Rightarrow> Task list \<times> state" where
  "constructor fs =
     ([], \<lparr> shouldVerbose = False, args = [], taskStack = [],
            allowExternalCommands = False, heap = [], fsys = fs, effects = [] \<rparr>)"

definition emit :: "event \<Rightarrow> state \<Rightarrow> state" where
  "emit e s = s\<lparr> effects := effects s @ [e] \<rparr>"

subsection \<open>Logging\<close>

definition ESC :: string where
  "ESC = [CHR 0x1B]"

definition dquote :: string where
  "dquote = [CHR 0x22]"

text \<open>\<^verbatim>\<open>this.taskStack.at(-1) ?? '*'\<close>\<close>

definition context_name :: "state \<Rightarrow> string" where
  "context_name s = (if taskStack s = [] then ''*'' else last (taskStack s))"

definition tag :: "string \<Rightarrow> string \<Rightarrow> state \<Rightarrow> string" where
  "tag colour label s =
     ESC @ ''['' @ colour @ ''m'' @ label @ ESC @ ''[0m('' @
     ESC @ ''[33m'' @ context_name s @ ESC @ ''[0m):''"

text \<open>Every logging method calls the console with the tag and the message.\<close>

definition info :: "string \<Rightarrow> state \<Rightarrow> state" where
  "info data s =
     (if shouldVerbose s then emit (ConsoleLog [tag ''1'' ''INFO'' s, data]) s else s)"

definition verbose :: "string \<Rightarrow> state \<Rightarrow> state" where
  "verbose data s =
     (if shouldVerbose s then emit (ConsoleLog [tag ''1;92'' ''VERBOSE'' s, data]) s
      else s)"

definition warn :: "string \<Rightarrow> state \<Rightarrow> state" where
  "warn data s = emit (ConsoleLog [tag ''1;93'' ''VERBOSE'' s, data]) s"

definition error :: "string \<Rightarrow> state \<Rightarrow> state" where
  "error data s = emit (ConsoleError [tag ''1;91'' ''ERROR'' s, data]) s"

text \<open>The loop of \<^verbatim>\<open>fatal\<close> over the reversed stack; the entry at index 0 is red.\<close>

fun stack_lines :: "nat \<Rightarrow> string list \<Rightarrow> state \<Rightarrow> state" where
  "stack_lines i [] s = s"
| "stack_lines i (t # ts) s =
     stack_lines (Suc i) ts
       (emit (ConsoleError [''  - '' @ ESC @ ''['' @ (if i = 0 then ''91'' else ''37'') @ ''m''
              @ t @ ESC @ ''[0m'']) s)"

definition fatal :: "string \<Rightarrow> state \<Rightarrow> 'a outcome" where
  "fatal data s =
     (let s1 = emit (ConsoleError [tag ''1;95'' ''FATAL'' s, data]) s;
          s2 = (if taskStack s1 \<noteq> [] \<and> shouldVerbose s1
                then (let s3 = s1\<lparr> taskStack := rev (taskStack s1) \<rparr>;
                          s4 = emit (ConsoleError ['' Task stack:'']) s3
                      in stack_lines 0 (taskStack s4) s4)
                else s1)
      in Exited 1 s2)"

subsection \<open>Tasks\<close>

definition addTask :: "string \<Rightarrow> string \<Rightarrow> TaskHandler \<Rightarrow> Task list \<Rightarrow> Task list" where
  "addTask n desc c ts = ts @ [\<lparr> name = n, description = desc, handler = c \<rparr>]"

text \<open>\<^verbatim>\<open>pop\<close> on an empty array removes nothing, as \<open>butlast\<close> does.\<close>

definition runTask :: "Task list \<Rightarrow> string \<Rightarrow> jsargs \<Rightarrow> state \<Rightarrow> int outcome" where
  "runTask ts task a s =
     (case find (\<lambda>v. name v = task) ts of
        None \<Rightarrow> fatal (''Failed to run task '' @ dquote @ task @ dquote) s
      | Some t \<Rightarrow>
          (let s1 = verbose (''Starting task '' @ ESC @ ''[33m'' @ name t @ ESC @ ''[0m...'') s;
               s2 = s1\<lparr> taskStack := taskStack s1 @ [name t] \<rparr>
           in case handler t a s2 of
                Returned resp s3 \<Rightarrow>
                  (let s4 = s3\<lparr> taskStack := butlast (taskStack s3) \<rparr>;
                       s5 = (if resp < 0
                             then error (''Failed task '' @ dquote @ name t @ dquote) s4
                             else s4)
                   in Returned resp s5)
              | Exited c s3 \<Rightarrow> Exited c s3
              | Threw e s3 \<Rightarrow> Threw e s3))"

text \<open>\<^verbatim>\<open>yargs\<close> is not part of the repository. \<^verbatim>\<open>begin\<close> hands it the commands (name
  and description of every task, in order), the registered options and the tokens; it
  either ends the process itself (no command, an unknown one, a bad flag, the help
  screen) or calls the callback of the command at one index with the parsed arguments.\<close>

datatype parsed = ParseExit nat | Dispatch nat jsargs

type_synonym yargs = "(string \<times> string) list \<Rightarrow> obj list \<Rightarrow> string list \<Rightarrow> parsed"

definition discard :: "'a outcome \<Rightarrow> unit outcome" where
  "discard r = (case r of Returned x s \<Rightarrow> Returned () s
                        | Exited c s \<Rightarrow> Exited c s
                        | Threw e s \<Rightarrow> Threw e s)"

text \<open>The callback registered for task \<open>i\<close>. An index outside the task list has no
  callback; the parser is then taken to have ended the process.\<close>

definition command_callback :: "Task list \<Rightarrow> nat \<Rightarrow> jsargs \<Rightarrow> state \<Rightarrow> unit outcome" where
  "command_callback ts i a s =
     (let s1 = (if (case a ''v'' of None \<Rightarrow> False | Some v \<Rightarrow> truthy v)
                then s\<lparr> shouldVerbose := True \<rparr> else s)
      in discard (runTask ts (name (ts ! i)) a s1))"

text \<open>\<^verbatim>\<open>begin\<close> (the name is a keyword here).\<close>

definition beginBuilder :: "yargs \<Rightarrow> Task list \<Rightarrow> string list \<Rightarrow> state \<Rightarrow> unit outcome" where
  "beginBuilder parseSync ts argv s =
     (case parseSync (map (\<lambda>t. (name t, description t)) ts)
                     (map (\<lambda>a. heap s ! a) (args s)) argv of
        ParseExit c \<Rightarrow> Exited c s
      | Dispatch i a \<Rightarrow> (if i < length ts then command_callback ts i a s else Exited 1 s))"

subsection \<open>Options\<close>

text \<open>An option descriptor is an object on the heap, named by its address.
  \<^verbatim>\<open>Object.assign({}, a)\<close> allocates a new object and copies the properties of \<open>a\<close>
  into it, the values as they are (a reference stays a reference to the same object).
  An address beyond the heap stands for \<^verbatim>\<open>undefined\<close>, which \<^verbatim>\<open>Object.assign\<close>
  skips.\<close>

definition addArgument :: "nat \<Rightarrow> state \<Rightarrow> state" where
  "addArgument a s =
     (let copy = (if a < length (heap s) then heap s ! a else Map.empty);
          fresh = length (heap s)
      in s\<lparr> heap := heap s @ [copy], args := args s @ [fresh] \<rparr>)"

text \<open>What a caller can do to an object it holds: assign a property or delete one.\<close>

datatype mutation = SetProperty string val | DeleteProperty string

fun mutate :: "nat \<Rightarrow> mutation \<Rightarrow> state \<Rightarrow> state" where
  "mutate a (SetProperty k v) s =
     (if a < length (heap s) then s\<lparr> heap := (heap s)[a := (heap s ! a)(k \<mapsto> v)] \<rparr> else s)"
| "mutate a (DeleteProperty k) s =
     (if a < length (heap s) then s\<lparr> heap := (heap s)[a := (heap s ! a)(k := None)] \<rparr> else s)"

fun mutations :: "nat \<Rightarrow> mutation list \<Rightarrow> state \<Rightarrow> state" where
  "mutations a [] s = s"
| "mutations a (m # ms) s = mutations a ms (mutate a m s)"

subsection \<open>Shell commands\<close>

text \<open>\<^verbatim>\<open>execSync\<close> runs the command in a shell and throws when it fails. The shell is a
  parameter: given the command and the file system it tells whether the command
  succeeded and what the file system is afterwards.\<close>

type_synonym shell = "string \<Rightarrow> filesys \<Rightarrow> bool \<times> filesys"

definition runCommand :: "shell \<Rightarrow> string \<Rightarrow> bool \<Rightarrow> state \<Rightarrow> bool outcome" where
  "runCommand sh command continueIfFailed s =
     (let s1 = verbose command s;
          s2 = emit (ExecSync command) s1;
          (ok, fs) = sh command (fsys s2);
          s3 = s2\<lparr> fsys := fs \<rparr>
      in if ok then Returned True s3
         else if \<not> continueIfFailed
              then fatal (''Failed command '' @ ESC @ ''[32m'' @ command @ ESC @ ''[0m'') s3
              else Returned False s3)"

definition existsSync :: "state \<Rightarrow> string \<Rightarrow> bool" where
  "existsSync s p = (fsys s p \<noteq> None)"

text \<open>\<^verbatim>\<open>mtime?.getTime() ?? 0\<close>\<close>

definition getTime_or_0 :: "stats \<Rightarrow> int" where
  "getTime_or_0 st = (case mtime st of None \<Rightarrow> 0 | Some t \<Rightarrow> t)"

text \<open>\<^verbatim>\<open>statSync\<close> throws on a path that is not there.\<close>

definition compile :: "shell \<Rightarrow> string \<Rightarrow> string \<Rightarrow> string \<Rightarrow> state \<Rightarrow> unit outcome" where
  "compile sh command source destination s =
     (if \<not> existsSync s source
      then fatal (dquote @ source @ dquote @ '' doesn'' @ [CHR 0x27] @ ''t exist, despite being used in ''
                  @ ESC @ ''[94mcompile'' @ ESC @ ''[0m()'') s
      else if \<not> existsSync s destination
      then discard (runCommand sh command False s)
      else (case fsys s source of
              None \<Rightarrow> Threw ''ENOENT'' s
            | Some sourceStats \<Rightarrow>
               (case fsys s destination of
                  None \<Rightarrow> Threw ''ENOENT'' s
                | Some destStats \<Rightarrow>
                   (if mtime sourceStats = None \<or> getTime_or_0 sourceStats > getTime_or_0 destStats
                    then discard (runCommand sh command False s)
                    else Returned () s))))"

subsection \<open>Paths\<close>

text \<open>\<^verbatim>\<open>node:path\<close> is a library of the runtime. Its POSIX \<^verbatim>\<open>join\<close> puts a slash between
  the non-empty arguments and normalises the result: empty and \<^verbatim>\<open>.\<close> segments go, a
  \<^verbatim>\<open>..\<close> takes the segment before it away (or stays, in a relative path with nothing
  before it), a trailing slash is kept, and the empty result is \<^verbatim>\<open>.\<close>.\<close>

fun split_slash :: "string \<Rightarrow> string \<Rightarrow> string list" where
  "split_slash seg [] = [seg]"
| "split_slash seg (c # cs) =
     (if c = CHR ''/'' then seg # split_slash [] cs else split_slash (seg @ [c]) cs)"

fun normalizeSegments :: "bool \<Rightarrow> string list \<Rightarrow> string list \<Rightarrow> string list" where
  "normalizeSegments allowAboveRoot res [] = rev res"
| "normalizeSegments allowAboveRoot res (seg # segs) =
     (if seg = [] \<or> seg = ''.'' then normalizeSegments allowAboveRoot res segs
      else if seg = ''..'' then
        (case res of
           [] \<Rightarrow> normalizeSegments allowAboveRoot (if allowAboveRoot then [''..''] else []) segs
         | r # rs \<Rightarrow>
             (if r \<noteq> ''..'' then normalizeSegments allowAboveRoot rs segs
              else normalizeSegments allowAboveRoot
                     (if allowAboveRoot then ''..'' # res else res) segs))
      else normalizeSegments allowAboveRoot (seg # res) segs)"

fun intercalate_slash :: "string list \<Rightarrow> string" where
  "intercalate_slash [] = []"
| "intercalate_slash [x] = x"
| "intercalate_slash (x # y # zs) = x @ ''/'' @ intercalate_slash (y # zs)"

definition normalize :: "string \<Rightarrow> string" where
  "normalize p =
     (if p = [] then ''.''
      else (let isAbsolute = (hd p = CHR ''/'');
                trailingSeparator = (last p = CHR ''/'');
                res = intercalate_slash (normalizeSegments (\<not> isAbsolute) [] (split_slash [] p))
            in if res = [] then (if isAbsolute then ''/'' else if trailingSeparator then ''./'' else ''.'')
               else (if isAbsolute then ''/'' else []) @ res @ (if trailingSeparator then ''/'' else [])))"

definition joinPath :: "string list \<Rightarrow> string" where
  "joinPath paths =
     (let joined = intercalate_slash (filter (\<lambda>p. p \<noteq> []) paths)
      in if joined = [] then ''.'' else normalize joined)"

text \<open>POSIX \<^verbatim>\<open>extname\<close> scans the path from its end. The loop variable runs from
  \<open>length path - 1\<close> down to 0; the function below takes it plus one.\<close>

record extname_vars =
  startDot :: int
  startPart :: int
  endIdx :: int
  matchedSlash :: bool
  preDotState :: int

fun extname_loop :: "string \<Rightarrow> nat \<Rightarrow> extname_vars \<Rightarrow> extname_vars" where
  "extname_loop path 0 v = v"
| "extname_loop path (Suc i) v =
     (if path ! i = CHR ''/'' then
        (if \<not> matchedSlash v then v\<lparr> startPart := int i + 1 \<rparr>
         else extname_loop path i v)
      else
        (let v1 = (if endIdx v = - 1 then v\<lparr> matchedSlash := False, endIdx := int i + 1 \<rparr> else v);
             v2 = (if path ! i = CHR ''.'' then
                     (if startDot v1 = - 1 then v1\<lparr> startDot := int i \<rparr>
                      else if preDotState v1 \<noteq> 1 then v1\<lparr> preDotState := 1 \<rparr>
                      else v1)
                   else if startDot v1 \<noteq> - 1 then v1\<lparr> preDotState := - 1 \<rparr>
                   else v1)
         in extname_loop path i v2))"

definition extname :: "string \<Rightarrow> string" where
  "extname path =
     (let v = extname_loop path (length path)
                \<lparr> startDot = - 1, startPart = 0, endIdx = - 1, matchedSlash = True,
                  preDotState = 0 \<rparr>
      in if startDot v = - 1 \<or> endIdx v = - 1 \<or> preDotState v = 0 \<or>
            (preDotState v = 1 \<and> startDot v = endIdx v - 1 \<and> startDot v = startPart v + 1)
         then []
         else drop (nat (startDot v)) (take (nat (endIdx v)) path))"

subsection \<open>Strings\<close>

fun startsWith :: "string \<Rightarrow> string \<Rightarrow> bool" where
  "startsWith s [] = True"
| "startsWith [] (p # ps) = False"
| "startsWith (c # cs) (p # ps) = (c = p \<and> startsWith cs ps)"

fun indexOf :: "string \<Rightarrow> string \<Rightarrow> nat option" where
  "indexOf [] search = (if search = [] then Some 0 else None)"
| "indexOf (c # cs) search =
     (if startsWith (c # cs) search then Some 0 else map_option Suc (indexOf cs search))"

text \<open>The replacement text of \<^verbatim>\<open>String.prototype.replace\<close> with a string pattern
  (ECMAScript's GetSubstitution with no captures): \<^verbatim>\<open>$$\<close> is a dollar sign, \<^verbatim>\<open>$&\<close> the
  matched text, \<^verbatim>\<open>$`\<close> the text before the match, \<^verbatim>\<open>$'\<close> the text after it; every
  other character, and a dollar sign before anything else, stands for itself.\<close>

fun getSubstitution :: "string \<Rightarrow> string \<Rightarrow> string \<Rightarrow> string \<Rightarrow> string" where
  "getSubstitution matched preceding following [] = []"
| "getSubstitution matched preceding following [c] = [c]"
| "getSubstitution matched preceding following (c # d # rest) =
     (if c = CHR ''$'' \<and> d = CHR ''$'' then CHR ''$'' # getSubstitution matched preceding following rest
      else if c = CHR ''$'' \<and> d = CHR ''&'' then matched @ getSubstitution matched preceding following rest
      else if c = CHR ''$'' \<and> d = CHR 0x60 then preceding @ getSubstitution matched preceding following rest
      else if c = CHR ''$'' \<and> d = CHR 0x27 then following @ getSubstitution matched preceding following rest
      else c # getSubstitution matched preceding following (d # rest))"

text \<open>\<^verbatim>\<open>str.replace(searchValue, replaceValue)\<close> with two strings: the first occurrence
  only.\<close>

definition replace :: "string \<Rightarrow> string \<Rightarrow> string \<Rightarrow> string" where
  "replace str searchValue replaceValue =
     (case indexOf str searchValue of
        None \<Rightarrow> str
      | Some pos \<Rightarrow>
          (let preceding = take pos str;
               following = drop (pos + length searchValue) str
           in preceding @ getSubstitution searchValue preceding following replaceValue
              @ following))"

definition extension :: "string \<Rightarrow> string \<Rightarrow> string" where
  "extension f ext = replace f (extname f) ext"

subsection \<open>Scanning a directory\<close>

text \<open>A directory tree as \<^verbatim>\<open>readdirSync\<close> with \<^verbatim>\<open>withFileTypes\<close> shows it: a directory
  lists named entries in the order the system gives them; \<open>Denied\<close> is a directory
  that cannot be read, and \<open>File\<close> anything that is not a directory. Reading anything
  but a readable directory throws. A regular expression is the set of names it
  matches: that is a pattern without the sticky flag, for which \<^verbatim>\<open>match\<close> depends on
  the name alone (with the flag it starts at the pattern's \<^verbatim>\<open>lastIndex\<close>, which the
  match on the file before has moved).\<close>

datatype node = File | Directory "(string \<times> node) list" | Denied

datatype fs_error = ReaddirFailed string

type_synonym RegExp = "string \<Rightarrow> bool"

fun scanDir :: "string \<Rightarrow> node \<Rightarrow> RegExp option \<Rightarrow> RegExp option \<Rightarrow> fs_error + string list"
and scanDir_loop :: "string \<Rightarrow> RegExp option \<Rightarrow> RegExp option \<Rightarrow> string list
                       \<Rightarrow> (string \<times> node) list \<Rightarrow> fs_error + string list" where
  "scanDir path (Directory files) matches ignores = scanDir_loop path matches ignores [] files"
| "scanDir path File matches ignores = Inl (ReaddirFailed path)"
| "scanDir path Denied matches ignores = Inl (ReaddirFailed path)"
| "scanDir_loop path matches ignores fnames [] = Inr fnames"
| "scanDir_loop path matches ignores fnames ((file_name, file) # files) =
     (if file \<noteq> File then
        (case scanDir (joinPath [path, file_name]) file matches ignores of
           Inl e \<Rightarrow> Inl e
         | Inr sub \<Rightarrow> scanDir_loop path matches ignores (fnames @ sub) files)
      else if (case ignores of None \<Rightarrow> False | Some r \<Rightarrow> r file_name) \<or>
              (case matches of None \<Rightarrow> False | Some r \<Rightarrow> \<not> r file_name)
      then scanDir_loop path matches ignores fnames files
      else scanDir_loop path matches ignores (fnames @ [joinPath [path, file_name]]) files)"

subsection \<open>Running commands elsewhere\<close>

definition allowExternal :: "state \<Rightarrow> state" where
  "allowExternal s = s\<lparr> allowExternalCommands := True \<rparr>"

fun decimal :: "nat \<Rightarrow> string" where
  "decimal n = (if n < 10 then [char_of (48 + n)] else decimal (n div 10) @ [char_of (48 + n mod 10)])"

declare decimal.simps [simp del]

text \<open>\<^verbatim>\<open>startExServer\<close> opens the listening socket and returns; its callbacks run
  later, one for the socket starting to listen and one for each message a client
  sends. A message is handled to its end before the next one, since \<^verbatim>\<open>execSync\<close>
  blocks. \<open>WsSend\<close> is the call of \<^verbatim>\<open>s.send\<close> with the number given.\<close>

definition startExServer :: "nat \<Rightarrow> state \<Rightarrow> state" where
  "startExServer port s = emit (WsListen port) s"

datatype server_event = Listening | Message string

definition server_callback :: "shell \<Rightarrow> nat \<Rightarrow> server_event \<Rightarrow> state \<Rightarrow> unit outcome" where
  "server_callback sh port ev s =
     (case ev of
        Listening \<Rightarrow> Returned () (verbose (''Server started on port :'' @ decimal port) s)
      | Message msg \<Rightarrow>
          (if startsWith msg ''r::'' then
             (case runCommand sh (drop 3 msg) True s of
                Returned ok s1 \<Rightarrow> Returned () (emit (WsSend (if ok then 0 else 1)) s1)
              | Exited c s1 \<Rightarrow> Exited c s1
              | Threw e s1 \<Rightarrow> Threw e s1)
           else Returned () s))"

text \<open>\<^verbatim>\<open>exCall\<close>. The constructor of \<^verbatim>\<open>WebSocket\<close> is a parameter: for a URL it gives
  the text of what it throws, or \<open>None\<close> when it opens the socket. The listeners that
  \<^verbatim>\<open>exCall\<close> puts on the socket run after it has returned, on what the network
  brings, and are not part of the call.\<close>

definition exCall :: "shell \<Rightarrow> (string \<Rightarrow> string option) \<Rightarrow> string \<Rightarrow> string option \<Rightarrow> nat
                        \<Rightarrow> state \<Rightarrow> unit outcome" where
  "exCall sh newWebSocket cmd ip port s =
     (if \<not> allowExternalCommands s then discard (runCommand sh cmd False s)
      else (let url = ''ws://'' @ (case ip of None \<Rightarrow> ''127.0.0.1'' | Some i \<Rightarrow> i) @ '':''
                      @ decimal port
            in case newWebSocket url of
                 None \<Rightarrow> Returned () (emit (WsOpen url) s)
               | Some e \<Rightarrow>
                   Returned ()
                     (emit (ConsoleError [e])
                        (emit (ConsoleError [ESC @ ''[90m['' @ ESC @ ''[31m%'' @ ESC @ ''[90m]''
                                             @ ESC @ ''[0m Failed to send'']) s))))"

subsection \<open>Reading an outcome and the trace\<close>

fun returned :: "'a outcome \<Rightarrow> bool" where
  "returned (Returned x s) = True"
| "returned (Exited c s) = False"
| "returned (Threw e s) = False"

fun state_of :: "'a outcome \<Rightarrow> state" where
  "state_of (Returned x s) = s"
| "state_of (Exited c s) = s"
| "state_of (Threw e s) = s"

fun exec_of :: "event \<Rightarrow> string list" where
  "exec_of (ExecSync c) = [c]"
| "exec_of e = []"

fun open_of :: "event \<Rightarrow> string list" where
  "open_of (WsOpen u) = [u]"
| "open_of e = []"

text \<open>The shell commands spawned so far and the sockets opened so far, in order.\<close>

definition executed :: "state \<Rightarrow> string list" where
  "executed s = concat (map exec_of (effects s))"

definition opened :: "state \<Rightarrow> string list" where
  "opened s = concat (map open_of (effects s))"

text \<open>A handler that gives the task stack back as it received it. The field is
  protected: a handler reaches it only through \<^verbatim>\<open>runTask\<close>, which pops what it pushed,
  and through \<^verbatim>\<open>fatal\<close>, which does not return.\<close>

definition keeps_stack :: "TaskHandler \<Rightarrow> bool" where
  "keeps_stack h = (\<forall>a s resp s'. h a s = Returned resp s' \<longrightarrow> taskStack s' = taskStack s)"

subsection \<open>Concrete surroundings\<close>

text \<open>A shell in which every command but \<^verbatim>\<open>false\<close> succeeds and none touches the files;
  a directory with a source file, an object file older than it and one newer; and the
  state of a builder just constructed there.\<close>

definition plain_shell :: shell where
  "plain_shell command fs = (command \<noteq> ''false'', fs)"

definition example_files :: filesys where
  "example_files =
     [''main.c'' \<mapsto> \<lparr> isDirectory = False, mtime = Some 200 \<rparr>,
      ''old.o'' \<mapsto> \<lparr> isDirectory = False, mtime = Some 100 \<rparr>,
      ''new.o'' \<mapsto> \<lparr> isDirectory = False, mtime = Some 300 \<rparr>]"

definition new_builder :: state where
  "new_builder = snd (constructor example_files)"

text \<open>What \<^verbatim>\<open>scanDir\<close> is to list, in the words of its description: every entry below
  the directory that is not itself a directory, subdirectories gone through whatever
  they are called, each entry with the path joined down to it and with its own name.
  An entry is left out when the ignore pattern matches its name or a match pattern is
  given and does not match it.\<close>

fun files_below :: "string \<Rightarrow> (string \<times> node) list \<Rightarrow> (string \<times> string) list" where
  "files_below path [] = []"
| "files_below path ((n, File) # es) = (joinPath [path, n], n) # files_below path es"
| "files_below path ((n, Directory sub) # es) =
     files_below (joinPath [path, n]) sub @ files_below path es"
| "files_below path ((n, Denied) # es) = files_below path es"

definition excluded :: "RegExp option \<Rightarrow> RegExp option \<Rightarrow> string \<Rightarrow> bool" where
  "excluded matches ignores n =
     ((case ignores of None \<Rightarrow> False | Some r \<Rightarrow> r n) \<or>
      (case matches of None \<Rightarrow> False | Some r \<Rightarrow> \<not> r n))"

fun readable :: "node \<Rightarrow> bool"
and readable_entries :: "(string \<times> node) list \<Rightarrow> bool" where
  "readable File = True"
| "readable Denied = False"
| "readable (Directory es) = readable_entries es"
| "readable_entries [] = True"
| "readable_entries ((n, f) # es) = (readable f \<and> readable_entries es)"

text \<open>The pattern \<^verbatim>\<open>/\.txt$/\<close> matches the names that end in \<^verbatim>\<open>.txt\<close>.\<close>

definition endsWith :: "string \<Rightarrow> string \<Rightarrow> bool" where
  "endsWith suffix n = startsWith (rev n) (rev suffix)"

definition example_tree :: node where
  "example_tree =
     Directory [(''a.txt'', File), (''b.log'', File), (''sub'', Directory [(''c.txt'', File)])]"

text \<open>Two tasks for the task stack. The handler of the first throws. The handler of the
  second is \<^verbatim>\<open>(args) => { try { build.runTask('b', args) } catch {} return 0 }\<close>.\<close>

definition throwing_task :: Task where
  "throwing_task = \<lparr> name = ''b'', description = ''throws'', handler = (\<lambda>a s. Threw ''boom'' s) \<rparr>"

definition catching_task :: Task where
  "catching_task =
     \<lparr> name = ''a'', description = ''runs b and goes on'',
       handler = (\<lambda>a s. case runTask [throwing_task] ''b'' a s of
                           Returned resp s' \<Rightarrow> Returned 0 s'
                         | Exited c s' \<Rightarrow> Exited c s'
                         | Threw e s' \<Rightarrow> Returned 0 s') \<rparr>"

text \<open>Reading and assigning along a chain of properties, as \<^verbatim>\<open>o.k1.k2\<close> and
  \<^verbatim>\<open>o.k1.k2 = v\<close> do, starting from the object at an address. A property that is not
  there reads as \<^verbatim>\<open>undefined\<close>. Going on from a value that is not an object is not
  followed: the reading is \<open>None\<close> there, and the assignment changes nothing.\<close>

fun property_at :: "obj list \<Rightarrow> nat \<Rightarrow> string list \<Rightarrow> val option" where
  "property_at h a [] = Some (Ref a)"
| "property_at h a (k # ks) =
     (if a < length h then
        (case (h ! a) k of
           None \<Rightarrow> (if ks = [] then Some Undefined else None)
         | Some (Ref b) \<Rightarrow> property_at h b ks
         | Some v \<Rightarrow> (if ks = [] then Some v else None))
      else None)"

fun assign_path :: "nat \<Rightarrow> string list \<Rightarrow> val \<Rightarrow> state \<Rightarrow> state" where
  "assign_path a [] v s = s"
| "assign_path a [k] v s = mutate a (SetProperty k v) s"
| "assign_path a (k # k' # ks) v s =
     (if a < length (heap s) then
        (case (heap s ! a) k of
           Some (Ref b) \<Rightarrow> assign_path b (k' # ks) v s
         | _ \<Rightarrow> s)
      else s)"

text \<open>A builder whose caller holds, at address 0, the option
  \<^verbatim>\<open>{ name: 'opt', nested: { x: 1 } }\<close>; the inner object is at address 1.\<close>

definition nested_option_builder :: state where
  "nested_option_builder =
     new_builder\<lparr> heap := [[''name'' \<mapsto> Str ''opt'', ''nested'' \<mapsto> Ref 1], [''x'' \<mapsto> Num 1]] \<rparr>"

section \<open>Properties\<close>

subsection \<open>The trace under logging\<close>

lemma taskStack_emit [simp]: "taskStack (emit e s) = taskStack s"
  by (simp add: emit_def)

lemma shouldVerbose_emit [simp]: "shouldVerbose (emit e s) = shouldVerbose s"
  by (simp add: emit_def)

lemma effects_emit [simp]: "effects (emit e s) = effects s @ [e]"
  by (simp add: emit_def)

lemma fsys_emit [simp]: "fsys (emit e s) = fsys s"
  by (simp add: emit_def)

lemma allow_emit [simp]: "allowExternalCommands (emit e s) = allowExternalCommands s"
  by (simp add: emit_def)

lemma taskStack_verbose [simp]: "taskStack (verbose d s) = taskStack s"
  by (simp add: verbose_def)

lemma fsys_verbose [simp]: "fsys (verbose d s) = fsys s"
  by (simp add: verbose_def)

lemma executed_emit_exec [simp]: "executed (emit (ExecSync c) s) = executed s @ [c]"
  by (simp add: executed_def)

lemma executed_emit_error [simp]: "executed (emit (ConsoleError x) s) = executed s"
  by (simp add: executed_def)

lemma executed_emit_log [simp]: "executed (emit (ConsoleLog x) s) = executed s"
  by (simp add: executed_def)

lemma executed_verbose [simp]: "executed (verbose d s) = executed s"
  by (simp add: verbose_def)

lemma executed_fsys_update [simp]: "executed (s\<lparr> fsys := fs \<rparr>) = executed s"
  by (simp add: executed_def)

lemma executed_taskStack_update [simp]: "executed (s\<lparr> taskStack := st \<rparr>) = executed s"
  by (simp add: executed_def)

lemma stack_lines_effects:
  "\<exists>rest. effects (stack_lines i xs s) = effects s @ rest \<and> (\<forall>e \<in> set rest. \<exists>x. e = ConsoleError x)"
proof (induction xs arbitrary: i s)
  case Nil
  then show ?case by simp
next
  case (Cons x xs)
  let ?e = "ConsoleError [''  - '' @ ESC @ ''['' @ (if i = 0 then ''91'' else ''37'') @ ''m'' @ x @ ESC @ ''[0m'']"
  obtain rest where r: "effects (stack_lines (Suc i) xs (emit ?e s)) = effects (emit ?e s) @ rest"
    and c: "\<forall>e \<in> set rest. \<exists>x. e = ConsoleError x"
    using Cons.IH by blast
  have "effects (stack_lines i (x # xs) s) = effects s @ (?e # rest)"
    using r by simp
  moreover have "\<forall>e \<in> set (?e # rest). \<exists>x. e = ConsoleError x"
    using c by simp
  ultimately show ?case by blast
qed

lemma fatal_exits:
  "\<exists>s' rest. (fatal d s :: 'a outcome) = Exited 1 s' \<and>
     effects s' = effects s @ ConsoleError [tag ''1;95'' ''FATAL'' s, d] # rest \<and>
     (\<forall>e \<in> set rest. \<exists>x. e = ConsoleError x)"
proof -
  define line where "line = ConsoleError [tag ''1;95'' ''FATAL'' s, d]"
  define s1 where "s1 = emit line s"
  define s4 where "s4 = emit (ConsoleError ['' Task stack:'']) (s1\<lparr> taskStack := rev (taskStack s1) \<rparr>)"
  have unfolded: "(fatal d s :: 'a outcome) =
      Exited 1 (if taskStack s1 \<noteq> [] \<and> shouldVerbose s1 then stack_lines 0 (taskStack s4) s4 else s1)"
    unfolding fatal_def Let_def s1_def s4_def line_def by (rule refl)
  have e1: "effects s1 = effects s @ [line]"
    by (simp add: s1_def)
  have e4: "effects s4 = effects s @ [line, ConsoleError ['' Task stack:'']]"
    by (simp add: s4_def e1)
  show ?thesis
  proof (cases "taskStack s1 \<noteq> [] \<and> shouldVerbose s1")
    case False
    then have "(fatal d s :: 'a outcome) = Exited 1 s1"
      unfolding unfolded by (simp only: if_False)
    moreover have "effects s1 = effects s @ line # []"
      using e1 by simp
    moreover have "\<forall>e \<in> set ([] :: event list). \<exists>x. e = ConsoleError x"
      by simp
    ultimately show ?thesis
      unfolding line_def by blast
  next
    case True
    obtain rest where r: "effects (stack_lines 0 (taskStack s4) s4) = effects s4 @ rest"
      and c: "\<forall>e \<in> set rest. \<exists>x. e = ConsoleError x"
      using stack_lines_effects by blast
    have "(fatal d s :: 'a outcome) = Exited 1 (stack_lines 0 (taskStack s4) s4)"
      unfolding unfolded using True by simp
    moreover have "effects (stack_lines 0 (taskStack s4) s4)
        = effects s @ line # (ConsoleError ['' Task stack:''] # rest)"
      using r e4 by simp
    moreover have "\<forall>e \<in> set (ConsoleError ['' Task stack:''] # rest). \<exists>x. e = ConsoleError x"
      using c by simp
    ultimately show ?thesis
      unfolding line_def by blast
  qed
qed

lemma find_first:
  "\<forall>v \<in> set pre. \<not> P v \<Longrightarrow> P t \<Longrightarrow> find P (pre @ t # post) = Some t"
  by (induction pre) auto

text \<open>
  Claim C1. When at least one task is registered under the name, \<^verbatim>\<open>runTask\<close> calls the
  handler of the first such task, on the arguments given and on the state in which the
  name has been pushed. The handler is applied once: the state \<^verbatim>\<open>runTask\<close> ends in is
  the state the handler returned, with the stack popped. The value \<^verbatim>\<open>runTask\<close> returns
  is the value the handler returned. When it is negative, \<^verbatim>\<open>console.error\<close> is called
  once more, with the ERROR tag and the message that the task failed, and \<^verbatim>\<open>runTask\<close>
  returns all the same; when it is not negative, the trace is the one the handler left.
  Later tasks of the same name play no part.
\<close>

theorem runTask_first_registered:
  assumes "\<forall>v \<in> set pre. name v \<noteq> name t"
    and "handler t a ((verbose (''Starting task '' @ ESC @ ''[33m'' @ name t @ ESC @ ''[0m...'') s)
                       \<lparr> taskStack := taskStack s @ [name t] \<rparr>) = Returned resp s3"
  shows "runTask (pre @ t # post) (name t) a s =
           Returned resp
             (if resp < 0
              then error (''Failed task '' @ dquote @ name t @ dquote)
                     (s3\<lparr> taskStack := butlast (taskStack s3) \<rparr>)
              else s3\<lparr> taskStack := butlast (taskStack s3) \<rparr>) \<and>
         effects (state_of (runTask (pre @ t # post) (name t) a s)) =
           effects s3 @
           (if resp < 0
            then [ConsoleError [tag ''1;91'' ''ERROR'' (s3\<lparr> taskStack := butlast (taskStack s3) \<rparr>),
                                ''Failed task '' @ dquote @ name t @ dquote]]
            else []) \<and>
         taskStack (state_of (runTask (pre @ t # post) (name t) a s)) = butlast (taskStack s3)"
proof -
  have "find (\<lambda>v. name v = name t) (pre @ t # post) = Some t"
    using assms(1) by (intro find_first) auto
  then have r: "runTask (pre @ t # post) (name t) a s =
           Returned resp
             (if resp < 0
              then error (''Failed task '' @ dquote @ name t @ dquote)
                     (s3\<lparr> taskStack := butlast (taskStack s3) \<rparr>)
              else s3\<lparr> taskStack := butlast (taskStack s3) \<rparr>)"
    using assms(2) by (simp add: runTask_def Let_def)
  have e: "effects (state_of (runTask (pre @ t # post) (name t) a s)) =
           effects s3 @
           (if resp < 0
            then [ConsoleError [tag ''1;91'' ''ERROR'' (s3\<lparr> taskStack := butlast (taskStack s3) \<rparr>),
                                ''Failed task '' @ dquote @ name t @ dquote]]
            else [])"
    unfolding r by (simp add: error_def)
  have k: "taskStack (state_of (runTask (pre @ t # post) (name t) a s)) = butlast (taskStack s3)"
    unfolding r by (simp add: error_def)
  show ?thesis
    using r e k by blast
qed

text \<open>
  Claim C2. When no task is registered under the name, \<^verbatim>\<open>runTask\<close> does not return: it
  calls \<^verbatim>\<open>console.error\<close> with the FATAL tag and the message that the task could not be
  run, then with the lines of the task stack if there are any to show, and the process
  ends with exit status 1.
\<close>

theorem runTask_unknown_is_fatal:
  assumes "\<forall>v \<in> set ts. name v \<noteq> task"
  shows "\<exists>s' rest. runTask ts task a s = Exited 1 s' \<and>
           effects s' = effects s @
             ConsoleError [tag ''1;95'' ''FATAL'' s, ''Failed to run task '' @ dquote @ task @ dquote]
             # rest"
proof -
  have "find (\<lambda>v. name v = task) ts = None"
    using assms by (simp add: find_None_iff)
  then have "runTask ts task a s = fatal (''Failed to run task '' @ dquote @ task @ dquote) s"
    by (simp add: runTask_def)
  then show ?thesis
    using fatal_exits [of "''Failed to run task '' @ dquote @ task @ dquote" s, where 'a = int] by auto
qed

theorem runTask_first_registered_witness:
  "runTask [\<lparr> name = ''clean'', description = ''c'', handler = (\<lambda>a s. Returned 0 s) \<rparr>,
            \<lparr> name = ''build'', description = ''first'', handler = (\<lambda>a s. Returned (- 1) s) \<rparr>,
            \<lparr> name = ''build'', description = ''second'', handler = (\<lambda>a s. Returned 7 s) \<rparr>]
     ''build'' Map.empty (snd (constructor Map.empty))
   = Returned (- 1)
       (error (''Failed task '' @ dquote @ ''build'' @ dquote) (snd (constructor Map.empty))) \<and>
   effects (state_of
     (runTask [\<lparr> name = ''clean'', description = ''c'', handler = (\<lambda>a s. Returned 0 s) \<rparr>,
               \<lparr> name = ''build'', description = ''first'', handler = (\<lambda>a s. Returned (- 1) s) \<rparr>,
               \<lparr> name = ''build'', description = ''second'', handler = (\<lambda>a s. Returned 7 s) \<rparr>]
        ''build'' Map.empty (snd (constructor Map.empty))))
   = [ConsoleError [ESC @ ''[1;91mERROR'' @ ESC @ ''[0m('' @ ESC @ ''[33m*'' @ ESC @ ''[0m):'',
                    ''Failed task '' @ dquote @ ''build'' @ dquote]]"
proof -
  let ?pre = "[\<lparr> name = ''clean'', description = ''c'', handler = (\<lambda>a s. Returned 0 s) \<rparr>]"
  let ?t = "\<lparr> name = ''build'', description = ''first'', handler = (\<lambda>a s. Returned (- 1) s) \<rparr>"
  let ?post = "[\<lparr> name = ''build'', description = ''second'', handler = (\<lambda>a s. Returned 7 s) \<rparr>]"
  let ?s0 = "snd (constructor Map.empty)"
  let ?s3 = "?s0\<lparr> taskStack := [''build''] \<rparr>"
  have p: "\<forall>v \<in> set ?pre. name v \<noteq> name ?t"
    by simp
  have h: "handler ?t Map.empty
             ((verbose (''Starting task '' @ ESC @ ''[33m'' @ name ?t @ ESC @ ''[0m...'') ?s0)
                \<lparr> taskStack := taskStack ?s0 @ [name ?t] \<rparr>) = Returned (- 1) ?s3"
    by (simp add: constructor_def verbose_def)
  have popped: "?s3\<lparr> taskStack := butlast (taskStack ?s3) \<rparr> = ?s0"
    by (simp add: constructor_def)
  note th = runTask_first_registered [OF p h, of ?post, unfolded popped]
  have a: "runTask (?pre @ ?t # ?post) ''build'' Map.empty ?s0 =
             Returned (- 1) (error (''Failed task '' @ dquote @ ''build'' @ dquote) ?s0)"
    using th [THEN conjunct1] by simp
  have b: "effects (state_of (runTask (?pre @ ?t # ?post) ''build'' Map.empty ?s0)) =
             [ConsoleError [tag ''1;91'' ''ERROR'' ?s0, ''Failed task '' @ dquote @ ''build'' @ dquote]]"
    using th [THEN conjunct2, THEN conjunct1] by (simp add: constructor_def)
  have c: "tag ''1;91'' ''ERROR'' ?s0
             = ESC @ ''[1;91mERROR'' @ ESC @ ''[0m('' @ ESC @ ''[33m*'' @ ESC @ ''[0m):''"
    by (simp add: constructor_def tag_def context_name_def)
  show ?thesis
  proof (intro conjI)
    show "runTask [\<lparr> name = ''clean'', description = ''c'', handler = (\<lambda>a s. Returned 0 s) \<rparr>,
            \<lparr> name = ''build'', description = ''first'', handler = (\<lambda>a s. Returned (- 1) s) \<rparr>,
            \<lparr> name = ''build'', description = ''second'', handler = (\<lambda>a s. Returned 7 s) \<rparr>]
           ''build'' Map.empty ?s0
         = Returned (- 1) (error (''Failed task '' @ dquote @ ''build'' @ dquote) ?s0)"
      using a by simp
    show "effects (state_of
     (runTask [\<lparr> name = ''clean'', description = ''c'', handler = (\<lambda>a s. Returned 0 s) \<rparr>,
               \<lparr> name = ''build'', description = ''first'', handler = (\<lambda>a s. Returned (- 1) s) \<rparr>,
               \<lparr> name = ''build'', description = ''second'', handler = (\<lambda>a s. Returned 7 s) \<rparr>]
        ''build'' Map.empty ?s0))
      = [ConsoleError [ESC @ ''[1;91mERROR'' @ ESC @ ''[0m('' @ ESC @ ''[33m*'' @ ESC @ ''[0m):'',
                    ''Failed task '' @ dquote @ ''build'' @ dquote]]"
      using b unfolding c by simp
  qed
qed

theorem runTask_unknown_is_fatal_witness:
  "runTask [\<lparr> name = ''clean'', description = ''c'', handler = (\<lambda>a s. Returned 0 s) \<rparr>]
     ''deploy'' Map.empty (snd (constructor Map.empty))
   = Exited 1
       (emit (ConsoleError [ESC @ ''[1;95mFATAL'' @ ESC @ ''[0m('' @ ESC @ ''[33m*'' @ ESC @ ''[0m):'',
                            ''Failed to run task '' @ dquote @ ''deploy'' @ dquote])
          (snd (constructor Map.empty)))"
proof -
  let ?ts = "[\<lparr> name = ''clean'', description = ''c'', handler = (\<lambda>a s. Returned 0 s) \<rparr>]"
  let ?s0 = "snd (constructor Map.empty)"
  have n: "\<forall>v \<in> set ?ts. name v \<noteq> ''deploy''"
    by simp
  obtain s' rest where r: "runTask ?ts ''deploy'' Map.empty ?s0 = Exited 1 s'"
    and e: "effects s' = effects ?s0 @
             ConsoleError [tag ''1;95'' ''FATAL'' ?s0, ''Failed to run task '' @ dquote @ ''deploy'' @ dquote]
             # rest"
    using runTask_unknown_is_fatal [OF n, of Map.empty ?s0] by blast
  have "runTask ?ts ''deploy'' Map.empty ?s0
          = Exited 1 (emit (ConsoleError [tag ''1;95'' ''FATAL'' ?s0,
                                          ''Failed to run task '' @ dquote @ ''deploy'' @ dquote]) ?s0)"
    by (simp add: runTask_def fatal_def Let_def constructor_def)
  then show ?thesis
    using r e by (simp add: constructor_def tag_def context_name_def)
qed

lemma runCommand_succeeds:
  assumes "fst (sh command (fsys s))"
  shows "runCommand sh command c s =
           Returned True ((emit (ExecSync command) (verbose command s))
                            \<lparr> fsys := snd (sh command (fsys s)) \<rparr>)"
  using assms by (simp add: runCommand_def Let_def case_prod_beta)

lemma runCommand_fails_continue:
  assumes "\<not> fst (sh command (fsys s))"
  shows "runCommand sh command True s =
           Returned False ((emit (ExecSync command) (verbose command s))
                             \<lparr> fsys := snd (sh command (fsys s)) \<rparr>)"
  using assms by (simp add: runCommand_def Let_def case_prod_beta)

lemma runCommand_fails_fatal:
  assumes "\<not> fst (sh command (fsys s))"
  shows "runCommand sh command False s =
           fatal (''Failed command '' @ ESC @ ''[32m'' @ command @ ESC @ ''[0m'')
             ((emit (ExecSync command) (verbose command s))
                \<lparr> fsys := snd (sh command (fsys s)) \<rparr>)"
  using assms by (simp add: runCommand_def Let_def case_prod_beta)

lemma executed_append:
  "effects s' = effects s @ rest \<Longrightarrow> executed s' = executed s @ concat (map exec_of rest)"
  by (simp add: executed_def)

lemma console_errors_not_executed:
  "\<forall>e \<in> set rest. \<exists>x. e = ConsoleError x \<Longrightarrow> concat (map exec_of rest) = []"
  by (induction rest) auto

lemma fatal_executed:
  "\<exists>s'. (fatal d s :: 'a outcome) = Exited 1 s' \<and> executed s' = executed s"
proof -
  obtain s' rest where f: "(fatal d s :: 'a outcome) = Exited 1 s'"
    and e: "effects s' = effects s @ ConsoleError [tag ''1;95'' ''FATAL'' s, d] # rest"
    and c: "\<forall>e \<in> set rest. \<exists>x. e = ConsoleError x"
    using fatal_exits by blast
  have "executed s' = executed s @ concat (map exec_of (ConsoleError [tag ''1;95'' ''FATAL'' s, d] # rest))"
    using e by (rule executed_append)
  then have "executed s' = executed s"
    using console_errors_not_executed [OF c] by simp
  then show ?thesis using f by blast
qed

lemma runCommand_executed:
  "executed (state_of (runCommand sh command continueIfFailed s)) = executed s @ [command]"
proof (cases "fst (sh command (fsys s))")
  case True
  then show ?thesis by (simp add: runCommand_succeeds)
next
  case False
  show ?thesis
  proof (cases continueIfFailed)
    case True
    then show ?thesis using False by (simp add: runCommand_fails_continue)
  next
    case c: False
    let ?s3 = "(emit (ExecSync command) (verbose command s)) \<lparr> fsys := snd (sh command (fsys s)) \<rparr>"
    obtain s' where f: "(fatal (''Failed command '' @ ESC @ ''[32m'' @ command @ ESC @ ''[0m'') ?s3 :: bool outcome) = Exited 1 s'"
      and e: "executed s' = executed ?s3"
      using fatal_executed by blast
    have "runCommand sh command continueIfFailed s = Exited 1 s'"
      using False c f runCommand_fails_fatal [of sh command s] by simp
    then show ?thesis using e by simp
  qed
qed

text \<open>
  Claim C8. \<^verbatim>\<open>runCommand\<close> spawns the command once. It returns true when the command
  succeeds; when the command fails it ends the process with status 1 if
  \<^verbatim>\<open>continueIfFailed\<close> is false, and returns false if it is true.
\<close>

theorem runCommand_result:
  "(fst (sh command (fsys s)) \<longrightarrow>
      (\<exists>s'. runCommand sh command continueIfFailed s = Returned True s')) \<and>
   (\<not> fst (sh command (fsys s)) \<and> \<not> continueIfFailed \<longrightarrow>
      (\<exists>s'. runCommand sh command continueIfFailed s = Exited 1 s')) \<and>
   (\<not> fst (sh command (fsys s)) \<and> continueIfFailed \<longrightarrow>
      (\<exists>s'. runCommand sh command continueIfFailed s = Returned False s')) \<and>
   executed (state_of (runCommand sh command continueIfFailed s)) = executed s @ [command]"
proof (intro conjI impI)
  assume "fst (sh command (fsys s))"
  then show "\<exists>s'. runCommand sh command continueIfFailed s = Returned True s'"
    by (simp add: runCommand_succeeds)
next
  assume a: "\<not> fst (sh command (fsys s)) \<and> \<not> continueIfFailed"
  then have "runCommand sh command continueIfFailed s =
           fatal (''Failed command '' @ ESC @ ''[32m'' @ command @ ESC @ ''[0m'')
             ((emit (ExecSync command) (verbose command s))
                \<lparr> fsys := snd (sh command (fsys s)) \<rparr>)"
    using runCommand_fails_fatal [of sh command s] by simp
  then show "\<exists>s'. runCommand sh command continueIfFailed s = Exited 1 s'"
    using fatal_executed by metis
next
  assume "\<not> fst (sh command (fsys s)) \<and> continueIfFailed"
  then show "\<exists>s'. runCommand sh command continueIfFailed s = Returned False s'"
    using runCommand_fails_continue [of sh command s] by simp
next
  show "executed (state_of (runCommand sh command continueIfFailed s)) = executed s @ [command]"
    by (rule runCommand_executed)
qed

theorem runCommand_result_witness:
  "(\<exists>s'. runCommand (\<lambda>c fs. (c = ''true'', fs)) ''true'' False (snd (constructor Map.empty))
           = Returned True s') \<and>
   (\<exists>s'. runCommand (\<lambda>c fs. (c = ''true'', fs)) ''false'' False (snd (constructor Map.empty))
           = Exited 1 s') \<and>
   (\<exists>s'. runCommand (\<lambda>c fs. (c = ''true'', fs)) ''false'' True (snd (constructor Map.empty))
           = Returned False s') \<and>
   executed (state_of (runCommand (\<lambda>c fs. (c = ''true'', fs)) ''false'' False
                         (snd (constructor Map.empty)))) = [''false'']"
  using runCommand_result [of "\<lambda>c fs. (c = ''true'', fs)" "''true''" "snd (constructor Map.empty)" False]
        runCommand_result [of "\<lambda>c fs. (c = ''true'', fs)" "''false''" "snd (constructor Map.empty)" False]
        runCommand_result [of "\<lambda>c fs. (c = ''true'', fs)" "''false''" "snd (constructor Map.empty)" True]
  by (simp add: constructor_def executed_def)

subsection \<open>The task stack\<close>

lemma taskStack_error [simp]: "taskStack (error d s) = taskStack s"
  by (simp add: error_def)

lemma fatal_not_returned: "(fatal d s :: 'a outcome) \<noteq> Returned x s'"
  using fatal_exits [of d s, where 'a = 'a] by auto

lemma find_Some_member: "find P xs = Some x \<Longrightarrow> x \<in> set xs \<and> P x"
  by (induction xs) (auto split: if_splits)

lemma find_at_index: "i < length xs \<Longrightarrow> P (xs ! i) \<Longrightarrow> \<exists>x. find P xs = Some x"
  by (cases "find P xs") (auto simp: find_None_iff)

lemma runTask_found:
  assumes "find (\<lambda>v. name v = task) ts = Some t"
  shows "runTask ts task a s =
     (case handler t a ((verbose (''Starting task '' @ ESC @ ''[33m'' @ name t @ ESC @ ''[0m...'') s)
                          \<lparr> taskStack := taskStack s @ [name t] \<rparr>) of
        Returned resp s3 \<Rightarrow>
          Returned resp
            (if resp < 0
             then error (''Failed task '' @ dquote @ name t @ dquote)
                    (s3\<lparr> taskStack := butlast (taskStack s3) \<rparr>)
             else s3\<lparr> taskStack := butlast (taskStack s3) \<rparr>)
      | Exited c s3 \<Rightarrow> Exited c s3
      | Threw e s3 \<Rightarrow> Threw e s3)"
  using assms by (simp add: runTask_def Let_def split: outcome.splits)

lemma runTask_keeps_stack:
  assumes k: "\<forall>t \<in> set ts. keeps_stack (handler t)"
    and r: "runTask ts task a s = Returned resp s'"
  shows "taskStack s' = taskStack s"
proof (cases "find (\<lambda>v. name v = task) ts")
  case None
  then have "runTask ts task a s = fatal (''Failed to run task '' @ dquote @ task @ dquote) s"
    by (simp add: runTask_def)
  then show ?thesis using r fatal_not_returned by metis
next
  case (Some t)
  let ?s2 = "(verbose (''Starting task '' @ ESC @ ''[33m'' @ name t @ ESC @ ''[0m...'') s)
               \<lparr> taskStack := taskStack s @ [name t] \<rparr>"
  have kt: "keeps_stack (handler t)"
    using k find_Some_member [OF Some] by blast
  show ?thesis
  proof (cases "handler t a ?s2")
    case (Returned x s3)
    have "taskStack s3 = taskStack ?s2"
      using kt Returned unfolding keeps_stack_def by blast
    then have st: "taskStack s3 = taskStack s @ [name t]"
      by simp
    have "runTask ts task a s = Returned x
            (if x < 0
             then error (''Failed task '' @ dquote @ name t @ dquote)
                    (s3\<lparr> taskStack := butlast (taskStack s3) \<rparr>)
             else s3\<lparr> taskStack := butlast (taskStack s3) \<rparr>)"
      using runTask_found [OF Some, of a s] Returned by simp
    then have "s' = (if x < 0
             then error (''Failed task '' @ dquote @ name t @ dquote)
                    (s3\<lparr> taskStack := butlast (taskStack s3) \<rparr>)
             else s3\<lparr> taskStack := butlast (taskStack s3) \<rparr>)"
      using r by simp
    then show ?thesis using st by simp
  next
    case (Exited c s3)
    then show ?thesis using runTask_found [OF Some, of a s] r by simp
  next
    case (Threw e s3)
    then show ?thesis using runTask_found [OF Some, of a s] r by simp
  qed
qed

text \<open>
  Claim C3 says that after the handler of a task run from \<^verbatim>\<open>begin\<close> has returned the
  stack is empty again, and that every \<^verbatim>\<open>runTask\<close> that returns leaves the stack as it
  found it. \<^verbatim>\<open>runTask\<close> pops one name after the handler, whatever the handler left
  there, and pops nothing when the handler throws. A handler that runs a second task
  whose handler throws, and catches what it throws, returns with the second name still
  on the stack; the pop takes that one, and the first name stays.
\<close>

theorem swallowed_throw_leaves_stack:
  "taskStack new_builder = [] \<and>
   runTask [catching_task, throwing_task] ''a'' Map.empty new_builder
     = Returned 0 (new_builder\<lparr> taskStack := [''a''] \<rparr>) \<and>
   beginBuilder (\<lambda>cmds opts argv. Dispatch 0 Map.empty) [catching_task, throwing_task] [''a'']
       new_builder
     = Returned () (new_builder\<lparr> taskStack := [''a''] \<rparr>)"
  by (simp add: new_builder_def constructor_def beginBuilder_def command_callback_def
        runTask_def catching_task_def throwing_task_def verbose_def discard_def)

text \<open>
  Claim C3, amended. When \<^verbatim>\<open>begin\<close> starts on an empty stack and the parser picks the
  command at index \<open>i\<close>, the handler that runs is that of the first task of that name,
  and the stack it is given is the one-element list of the name. After it has returned,
  \<^verbatim>\<open>begin\<close> returns with the stack the handler left, less its last name; that is the
  empty stack when the handler gives the stack back as it received it. When the handler
  ends the process or throws, that is the outcome of \<^verbatim>\<open>begin\<close> and nothing is popped.
  And when every registered handler gives the stack back as it received it, so does
  every \<^verbatim>\<open>runTask\<close> that returns; a handler that only calls \<^verbatim>\<open>runTask\<close> on such tasks,
  without catching what they throw, is again of that kind.
\<close>

theorem task_stack_discipline:
  "((\<forall>t \<in> set ts. keeps_stack (handler t)) \<longrightarrow> keeps_stack (runTask ts task)) \<and>
    (taskStack s = [] \<and> i < length ts \<and>
     parseSync (map (\<lambda>t. (name t, description t)) ts) (map (\<lambda>a. heap s ! a) (args s)) argv
       = Dispatch i a \<longrightarrow>
     (\<exists>t. find (\<lambda>v. name v = name (ts ! i)) ts = Some t \<and>
       (let s1 = (if (case a ''v'' of None \<Rightarrow> False | Some v \<Rightarrow> truthy v)
                  then s\<lparr> shouldVerbose := True \<rparr> else s);
            s2 = (verbose (''Starting task '' @ ESC @ ''[33m'' @ name t @ ESC @ ''[0m...'') s1)
                   \<lparr> taskStack := taskStack s1 @ [name t] \<rparr>
        in taskStack s2 = [name (ts ! i)] \<and>
           (case handler t a s2 of
              Returned resp s3 \<Rightarrow>
                (\<exists>s'. beginBuilder parseSync ts argv s = Returned () s' \<and>
                      taskStack s' = butlast (taskStack s3) \<and>
                      (keeps_stack (handler t) \<longrightarrow> taskStack s' = []))
            | Exited c s3 \<Rightarrow> beginBuilder parseSync ts argv s = Exited c s3
            | Threw e s3 \<Rightarrow> beginBuilder parseSync ts argv s = Threw e s3))))"
proof (intro conjI impI)
  assume k: "\<forall>t \<in> set ts. keeps_stack (handler t)"
  show "keeps_stack (runTask ts task)"
    unfolding keeps_stack_def using runTask_keeps_stack [OF k] by blast
next
  assume h: "taskStack s = [] \<and> i < length ts \<and>
     parseSync (map (\<lambda>t. (name t, description t)) ts) (map (\<lambda>a. heap s ! a) (args s)) argv
       = Dispatch i a"
  define s1 where "s1 = (if (case a ''v'' of None \<Rightarrow> False | Some v \<Rightarrow> truthy v)
                  then s\<lparr> shouldVerbose := True \<rparr> else s)"
  obtain t where t: "find (\<lambda>v. name v = name (ts ! i)) ts = Some t"
    using find_at_index [of i ts "\<lambda>v. name v = name (ts ! i)"] h by auto
  define s2 where "s2 = (verbose (''Starting task '' @ ESC @ ''[33m'' @ name t @ ESC @ ''[0m...'') s1)
                   \<lparr> taskStack := taskStack s1 @ [name t] \<rparr>"
  have nt: "name t = name (ts ! i)"
    using find_Some_member [OF t] by auto
  have e1: "taskStack s1 = []"
    using h by (simp add: s1_def)
  have st2: "taskStack s2 = [name (ts ! i)]"
    by (simp add: s2_def e1 nt)
  have b: "beginBuilder parseSync ts argv s = discard (runTask ts (name (ts ! i)) a s1)"
    using h by (simp add: beginBuilder_def command_callback_def Let_def s1_def)
  have rt: "runTask ts (name (ts ! i)) a s1 =
     (case handler t a s2 of
        Returned resp s3 \<Rightarrow>
          Returned resp
            (if resp < 0
             then error (''Failed task '' @ dquote @ name t @ dquote)
                    (s3\<lparr> taskStack := butlast (taskStack s3) \<rparr>)
             else s3\<lparr> taskStack := butlast (taskStack s3) \<rparr>)
      | Exited c s3 \<Rightarrow> Exited c s3
      | Threw e s3 \<Rightarrow> Threw e s3)"
    unfolding s2_def by (rule runTask_found [OF t])
  have "case handler t a s2 of
              Returned resp s3 \<Rightarrow>
                (\<exists>s'. beginBuilder parseSync ts argv s = Returned () s' \<and>
                      taskStack s' = butlast (taskStack s3) \<and>
                      (keeps_stack (handler t) \<longrightarrow> taskStack s' = []))
            | Exited c s3 \<Rightarrow> beginBuilder parseSync ts argv s = Exited c s3
            | Threw e s3 \<Rightarrow> beginBuilder parseSync ts argv s = Threw e s3"
  proof (cases "handler t a s2")
    case (Returned x s3)
    have kept: "keeps_stack (handler t) \<longrightarrow> butlast (taskStack s3) = []"
    proof
      assume "keeps_stack (handler t)"
      then have "taskStack s3 = taskStack s2"
        using Returned unfolding keeps_stack_def by blast
      then show "butlast (taskStack s3) = []"
        using st2 by simp
    qed
    show ?thesis
      using Returned b rt kept by (simp add: discard_def)
  next
    case (Exited c s3)
    then show ?thesis using b rt by (simp add: discard_def)
  next
    case (Threw e s3)
    then show ?thesis using b rt by (simp add: discard_def)
  qed
  then show "\<exists>t. find (\<lambda>v. name v = name (ts ! i)) ts = Some t \<and>
       (let s1 = (if (case a ''v'' of None \<Rightarrow> False | Some v \<Rightarrow> truthy v)
                  then s\<lparr> shouldVerbose := True \<rparr> else s);
            s2 = (verbose (''Starting task '' @ ESC @ ''[33m'' @ name t @ ESC @ ''[0m...'') s1)
                   \<lparr> taskStack := taskStack s1 @ [name t] \<rparr>
        in taskStack s2 = [name (ts ! i)] \<and>
           (case handler t a s2 of
              Returned resp s3 \<Rightarrow>
                (\<exists>s'. beginBuilder parseSync ts argv s = Returned () s' \<and>
                      taskStack s' = butlast (taskStack s3) \<and>
                      (keeps_stack (handler t) \<longrightarrow> taskStack s' = []))
            | Exited c s3 \<Rightarrow> beginBuilder parseSync ts argv s = Exited c s3
            | Threw e s3 \<Rightarrow> beginBuilder parseSync ts argv s = Threw e s3))"
    using t st2 unfolding Let_def s1_def s2_def by blast
qed

theorem task_stack_discipline_witness:
  "keeps_stack (runTask [\<lparr> name = ''build'', description = ''b'',
                           handler = (\<lambda>a s. Returned 0 (emit (ConsoleLog [concat (taskStack s)]) s)) \<rparr>]
                  ''build'') \<and>
   (\<exists>s'. beginBuilder (\<lambda>cmds opts argv. Dispatch 0 Map.empty)
           [\<lparr> name = ''build'', description = ''b'',
              handler = (\<lambda>a s. Returned 0 (emit (ConsoleLog [concat (taskStack s)]) s)) \<rparr>]
           [''build''] new_builder = Returned () s' \<and> taskStack s' = []) \<and>
   beginBuilder (\<lambda>cmds opts argv. Dispatch 0 Map.empty)
     [\<lparr> name = ''build'', description = ''b'',
        handler = (\<lambda>a s. Returned 0 (emit (ConsoleLog [concat (taskStack s)]) s)) \<rparr>]
     [''build''] new_builder
   = Returned () (emit (ConsoleLog [''build'']) new_builder)"
proof -
  let ?t = "\<lparr> name = ''build'', description = ''b'',
              handler = (\<lambda>a s. Returned 0 (emit (ConsoleLog [concat (taskStack s)]) s)) \<rparr>"
  let ?ts = "[?t]"
  let ?parse = "\<lambda>cmds opts argv. Dispatch 0 (Map.empty :: jsargs)"
  have k: "\<forall>t \<in> set ?ts. keeps_stack (handler t)"
    by (simp add: keeps_stack_def)
  then have kt: "keeps_stack (handler ?t)"
    by simp
  have "keeps_stack (runTask ?ts ''build'')"
    using k task_stack_discipline [of ?ts "''build''"] by blast
  moreover have "\<exists>s'. beginBuilder ?parse ?ts [''build''] new_builder = Returned () s' \<and> taskStack s' = []"
  proof -
    have h: "taskStack new_builder = [] \<and> 0 < length ?ts \<and>
             ?parse (map (\<lambda>t. (name t, description t)) ?ts)
                    (map (\<lambda>a. heap new_builder ! a) (args new_builder)) [''build'']
               = Dispatch 0 Map.empty"
      by (simp add: new_builder_def constructor_def)
    have "\<exists>t. find (\<lambda>v. name v = name (?ts ! 0)) ?ts = Some t \<and>
       (let s1 = (if (case (Map.empty :: jsargs) ''v'' of None \<Rightarrow> False | Some v \<Rightarrow> truthy v)
                  then new_builder\<lparr> shouldVerbose := True \<rparr> else new_builder);
            s2 = (verbose (''Starting task '' @ ESC @ ''[33m'' @ name t @ ESC @ ''[0m...'') s1)
                   \<lparr> taskStack := taskStack s1 @ [name t] \<rparr>
        in taskStack s2 = [name (?ts ! 0)] \<and>
           (case handler t Map.empty s2 of
              Returned resp s3 \<Rightarrow>
                (\<exists>s'. beginBuilder ?parse ?ts [''build''] new_builder = Returned () s' \<and>
                      taskStack s' = butlast (taskStack s3) \<and>
                      (keeps_stack (handler t) \<longrightarrow> taskStack s' = []))
            | Exited c s3 \<Rightarrow> beginBuilder ?parse ?ts [''build''] new_builder = Exited c s3
            | Threw e s3 \<Rightarrow> beginBuilder ?parse ?ts [''build''] new_builder = Threw e s3))"
      using h task_stack_discipline [of ?ts "''build''" new_builder 0 ?parse "[''build'']" Map.empty]
      by blast
    then show ?thesis
      using kt by (auto simp add: Let_def)
  qed
  moreover have "beginBuilder ?parse ?ts [''build''] new_builder
                 = Returned () (emit (ConsoleLog [''build'']) new_builder)"
    by (simp add: new_builder_def constructor_def beginBuilder_def command_callback_def
          runTask_def verbose_def discard_def emit_def)
  ultimately show ?thesis by blast
qed

subsection \<open>Compiling and serving\<close>

lemma state_of_discard [simp]: "state_of (discard r) = state_of r"
  by (cases r) (simp_all add: discard_def)

lemma returned_discard [simp]: "returned (discard r) = returned r"
  by (cases r) (simp_all add: discard_def)

text \<open>
  Claim C4. \<^verbatim>\<open>compile\<close> ends the process with status 1, spawning nothing, when the source
  is not there. With the source there and the destination not, it runs the command.
  With both there, it runs the command exactly when the source has no modification
  time or its time is greater than the destination's (a destination without a time
  counts as time 0); otherwise it returns at once and the state is unchanged.
  Running the command is \<^verbatim>\<open>runCommand\<close> with \<^verbatim>\<open>continueIfFailed\<close> false.
\<close>

theorem compile_runs_when_stale:
  "(\<not> existsSync s source \<longrightarrow>
      (\<exists>s'. compile sh command source destination s = Exited 1 s' \<and> executed s' = executed s)) \<and>
   (existsSync s source \<and> \<not> existsSync s destination \<longrightarrow>
      compile sh command source destination s = discard (runCommand sh command False s) \<and>
      executed (state_of (compile sh command source destination s)) = executed s @ [command]) \<and>
   (fsys s source = Some sourceStats \<and> fsys s destination = Some destStats \<longrightarrow>
      (if mtime sourceStats = None \<or> getTime_or_0 destStats < getTime_or_0 sourceStats
       then compile sh command source destination s = discard (runCommand sh command False s) \<and>
            executed (state_of (compile sh command source destination s)) = executed s @ [command]
       else compile sh command source destination s = Returned () s))"
proof (intro conjI impI)
  assume "\<not> existsSync s source"
  then have "compile sh command source destination s =
      fatal (dquote @ source @ dquote @ '' doesn'' @ [CHR 0x27] @ ''t exist, despite being used in ''
                  @ ESC @ ''[94mcompile'' @ ESC @ ''[0m()'') s"
    by (simp add: compile_def)
  then show "\<exists>s'. compile sh command source destination s = Exited 1 s' \<and> executed s' = executed s"
    using fatal_executed [where 'a = unit] by metis
next
  assume a: "existsSync s source \<and> \<not> existsSync s destination"
  then show c: "compile sh command source destination s = discard (runCommand sh command False s)"
    by (simp add: compile_def)
  show "executed (state_of (compile sh command source destination s)) = executed s @ [command]"
    unfolding c by (simp add: runCommand_executed)
next
  assume a: "fsys s source = Some sourceStats \<and> fsys s destination = Some destStats"
  then have ex: "existsSync s source" "existsSync s destination"
    by (simp_all add: existsSync_def)
  show "if mtime sourceStats = None \<or> getTime_or_0 destStats < getTime_or_0 sourceStats
       then compile sh command source destination s = discard (runCommand sh command False s) \<and>
            executed (state_of (compile sh command source destination s)) = executed s @ [command]
       else compile sh command source destination s = Returned () s"
  proof (cases "mtime sourceStats = None \<or> getTime_or_0 destStats < getTime_or_0 sourceStats")
    case True
    then have c: "compile sh command source destination s = discard (runCommand sh command False s)"
      using a ex by (auto simp add: compile_def)
    have "executed (state_of (compile sh command source destination s)) = executed s @ [command]"
      unfolding c by (simp add: runCommand_executed)
    then show ?thesis using True c by simp
  next
    case False
    then have "compile sh command source destination s = Returned () s"
      using a ex by (auto simp add: compile_def)
    then show ?thesis using False by simp
  qed
qed


theorem compile_runs_when_stale_witness:
  "(\<exists>s'. compile plain_shell ''cc'' ''gone.c'' ''old.o'' new_builder = Exited 1 s' \<and>
         executed s' = []) \<and>
   executed (state_of (compile plain_shell ''cc'' ''main.c'' ''main.o'' new_builder)) = [''cc''] \<and>
   executed (state_of (compile plain_shell ''cc'' ''main.c'' ''old.o'' new_builder)) = [''cc''] \<and>
   compile plain_shell ''cc'' ''main.c'' ''new.o'' new_builder = Returned () new_builder"
proof -
  have f: "fsys new_builder = example_files" and e: "executed new_builder = []"
    by (simp_all add: new_builder_def constructor_def executed_def)
  have "\<exists>s'. compile plain_shell ''cc'' ''gone.c'' ''old.o'' new_builder = Exited 1 s' \<and>
         executed s' = []"
    using compile_runs_when_stale [of new_builder "''gone.c''" plain_shell "''cc''" "''old.o''"]
    by (simp add: existsSync_def f e example_files_def)
  moreover have "executed (state_of (compile plain_shell ''cc'' ''main.c'' ''main.o'' new_builder)) = [''cc'']"
  proof -
    have "existsSync new_builder ''main.c'' \<and> \<not> existsSync new_builder ''main.o''"
      by (simp add: existsSync_def f example_files_def)
    then have "executed (state_of (compile plain_shell ''cc'' ''main.c'' ''main.o'' new_builder))
                 = executed new_builder @ [''cc'']"
      using compile_runs_when_stale [of new_builder "''main.c''" plain_shell "''cc''" "''main.o''"]
      by blast
    then show ?thesis by (simp add: e)
  qed
  moreover have "executed (state_of (compile plain_shell ''cc'' ''main.c'' ''old.o'' new_builder)) = [''cc'']"
  proof -
    have "fsys new_builder ''main.c'' = Some \<lparr> isDirectory = False, mtime = Some 200 \<rparr> \<and>
          fsys new_builder ''old.o'' = Some \<lparr> isDirectory = False, mtime = Some 100 \<rparr>"
      by (simp add: f example_files_def)
    then have "if mtime \<lparr> isDirectory = False, mtime = Some 200 \<rparr> = None \<or>
                  getTime_or_0 \<lparr> isDirectory = False, mtime = Some 100 \<rparr>
                    < getTime_or_0 \<lparr> isDirectory = False, mtime = Some 200 \<rparr>
       then compile plain_shell ''cc'' ''main.c'' ''old.o'' new_builder
              = discard (runCommand plain_shell ''cc'' False new_builder) \<and>
            executed (state_of (compile plain_shell ''cc'' ''main.c'' ''old.o'' new_builder))
              = executed new_builder @ [''cc'']
       else compile plain_shell ''cc'' ''main.c'' ''old.o'' new_builder = Returned () new_builder"
      using compile_runs_when_stale [of new_builder "''main.c''" plain_shell "''cc''" "''old.o''"
            "\<lparr> isDirectory = False, mtime = Some 200 \<rparr>" "\<lparr> isDirectory = False, mtime = Some 100 \<rparr>"]
      by blast
    then have "executed (state_of (compile plain_shell ''cc'' ''main.c'' ''old.o'' new_builder))
              = executed new_builder @ [''cc'']"
      by (auto simp add: getTime_or_0_def)
    then show ?thesis by (simp add: e)
  qed
  moreover have "compile plain_shell ''cc'' ''main.c'' ''new.o'' new_builder = Returned () new_builder"
    using compile_runs_when_stale [of new_builder "''main.c''" plain_shell "''cc''" "''new.o''"
            "\<lparr> isDirectory = False, mtime = Some 200 \<rparr>" "\<lparr> isDirectory = False, mtime = Some 300 \<rparr>"]
    by (simp add: existsSync_def f e example_files_def getTime_or_0_def)
  ultimately show ?thesis by blast
qed

lemma startsWith_append [simp]: "startsWith (p @ rest) p"
  by (induction p) auto

text \<open>
  Claim C5. The server's message callback, on \<^verbatim>\<open>r::\<close> followed by a command, runs the
  command with \<^verbatim>\<open>continueIfFailed\<close> true and then sends 0 when it succeeded and 1 when it
  failed; in both cases the callback returns, so the server goes on. On a message that
  does not start with \<^verbatim>\<open>r::\<close> the callback returns with the state as it was: nothing is
  run and nothing is sent.
\<close>

theorem server_replies:
  "(fst (sh cmd (fsys s)) \<longrightarrow>
      (\<exists>s1. runCommand sh cmd True s = Returned True s1 \<and>
            server_callback sh port (Message (''r::'' @ cmd)) s = Returned () (emit (WsSend 0) s1))) \<and>
   (\<not> fst (sh cmd (fsys s)) \<longrightarrow>
      (\<exists>s1. runCommand sh cmd True s = Returned False s1 \<and>
            server_callback sh port (Message (''r::'' @ cmd)) s = Returned () (emit (WsSend 1) s1))) \<and>
   (\<not> startsWith msg ''r::'' \<longrightarrow> server_callback sh port (Message msg) s = Returned () s)"
proof (intro conjI impI)
  assume a: "fst (sh cmd (fsys s))"
  have p: "startsWith (''r::'' @ cmd) ''r::''"
    by (rule startsWith_append)
  show "\<exists>s1. runCommand sh cmd True s = Returned True s1 \<and>
            server_callback sh port (Message (''r::'' @ cmd)) s = Returned () (emit (WsSend 0) s1)"
    using p by (simp add: server_callback_def runCommand_succeeds [of sh cmd s] a)
next
  assume a: "\<not> fst (sh cmd (fsys s))"
  have p: "startsWith (''r::'' @ cmd) ''r::''"
    by (rule startsWith_append)
  show "\<exists>s1. runCommand sh cmd True s = Returned False s1 \<and>
            server_callback sh port (Message (''r::'' @ cmd)) s = Returned () (emit (WsSend 1) s1)"
    using p by (simp add: server_callback_def runCommand_fails_continue [of sh cmd s] a)
next
  assume "\<not> startsWith msg ''r::''"
  then show "server_callback sh port (Message msg) s = Returned () s"
    by (simp add: server_callback_def)
qed

theorem server_replies_witness:
  "effects (state_of (server_callback plain_shell 8086 (Message ''r::make'')
                        (startExServer 8086 new_builder)))
     = [WsListen 8086, ExecSync ''make'', WsSend 0] \<and>
   effects (state_of (server_callback plain_shell 8086 (Message ''r::false'')
                        (startExServer 8086 new_builder)))
     = [WsListen 8086, ExecSync ''false'', WsSend 1] \<and>
   returned (server_callback plain_shell 8086 (Message ''r::false'') (startExServer 8086 new_builder)) \<and>
   server_callback plain_shell 8086 (Message ''make'') (startExServer 8086 new_builder)
     = Returned () (startExServer 8086 new_builder)"
  using server_replies [of plain_shell "''make''" "startExServer 8086 new_builder" 8086 "''make''"]
        server_replies [of plain_shell "''false''" "startExServer 8086 new_builder" 8086 "''make''"]
  by (auto simp add: plain_shell_def startExServer_def new_builder_def constructor_def
        runCommand_def verbose_def)

subsection \<open>Local execution of external calls\<close>

lemma opened_append:
  "effects s' = effects s @ rest \<Longrightarrow> opened s' = opened s @ concat (map open_of rest)"
  by (simp add: opened_def)

lemma console_errors_not_opened:
  "\<forall>e \<in> set rest. \<exists>x. e = ConsoleError x \<Longrightarrow> concat (map open_of rest) = []"
  by (induction rest) auto

lemma fatal_opened:
  "\<exists>s'. (fatal d s :: 'a outcome) = Exited 1 s' \<and> opened s' = opened s"
proof -
  obtain s' rest where f: "(fatal d s :: 'a outcome) = Exited 1 s'"
    and e: "effects s' = effects s @ ConsoleError [tag ''1;95'' ''FATAL'' s, d] # rest"
    and c: "\<forall>e \<in> set rest. \<exists>x. e = ConsoleError x"
    using fatal_exits by blast
  have "opened s' = opened s @ concat (map open_of (ConsoleError [tag ''1;95'' ''FATAL'' s, d] # rest))"
    using e by (rule opened_append)
  then have "opened s' = opened s"
    using console_errors_not_opened [OF c] by simp
  then show ?thesis using f by blast
qed

lemma opened_step [simp]:
  "opened ((emit (ExecSync command) (verbose command s)) \<lparr> fsys := fs \<rparr>) = opened s"
  by (simp add: opened_def verbose_def emit_def)

lemma runCommand_opened:
  "opened (state_of (runCommand sh command continueIfFailed s)) = opened s"
proof (cases "fst (sh command (fsys s))")
  case True
  then show ?thesis by (simp add: runCommand_succeeds)
next
  case False
  show ?thesis
  proof (cases continueIfFailed)
    case True
    then show ?thesis using False by (simp add: runCommand_fails_continue)
  next
    case c: False
    let ?s3 = "(emit (ExecSync command) (verbose command s)) \<lparr> fsys := snd (sh command (fsys s)) \<rparr>"
    obtain s' where f: "(fatal (''Failed command '' @ ESC @ ''[32m'' @ command @ ESC @ ''[0m'') ?s3 :: bool outcome) = Exited 1 s'"
      and e: "opened s' = opened ?s3"
      using fatal_opened by blast
    have "runCommand sh command continueIfFailed s = Exited 1 s'"
      using False c f runCommand_fails_fatal [of sh command s] by simp
    then show ?thesis using e by simp
  qed
qed

lemma runCommand_returned:
  "returned (runCommand sh command False s) = fst (sh command (fsys s))"
proof (cases "fst (sh command (fsys s))")
  case True
  then show ?thesis by (simp add: runCommand_succeeds)
next
  case False
  obtain s' where "(fatal (''Failed command '' @ ESC @ ''[32m'' @ command @ ESC @ ''[0m'')
             ((emit (ExecSync command) (verbose command s))
                \<lparr> fsys := snd (sh command (fsys s)) \<rparr>) :: bool outcome) = Exited 1 s'"
    using fatal_executed by blast
  then show ?thesis
    using False runCommand_fails_fatal [of sh command s] by simp
qed

lemma runCommand_exit_code:
  assumes "\<not> fst (sh command (fsys s))"
  shows "\<exists>s'. runCommand sh command False s = Exited 1 s'"
  using assms runCommand_fails_fatal [of sh command s] fatal_executed [where 'a = bool] by metis

text \<open>
  Claim C6 says that \<^verbatim>\<open>exCall\<close>, while \<^verbatim>\<open>allowExternal\<close> has not been called, runs the
  command here and returns. It does not return when the command fails: \<^verbatim>\<open>runCommand\<close>
  is called without \<^verbatim>\<open>continueIfFailed\<close>, so a failing command ends the process. Here
  the builder is new and the command is \<^verbatim>\<open>false\<close>.
\<close>

theorem exCall_not_always_returning:
  "\<not> allowExternalCommands new_builder \<and>
   \<not> returned (exCall plain_shell (\<lambda>url. None) ''false'' None 8086 new_builder)"
  by (simp add: exCall_def new_builder_def constructor_def runCommand_returned plain_shell_def)

text \<open>
  Claim C6, amended. While \<^verbatim>\<open>allowExternal\<close> has not been called, \<^verbatim>\<open>exCall\<close> is
  \<^verbatim>\<open>runCommand\<close> of the command with \<^verbatim>\<open>continueIfFailed\<close> false: the command is spawned
  here, once, and no socket is opened; \<^verbatim>\<open>exCall\<close> returns exactly when the command
  succeeds, and when it fails the process ends with status 1.
\<close>

theorem exCall_local:
  assumes "\<not> allowExternalCommands s"
  shows "exCall sh newWebSocket cmd ip port s = discard (runCommand sh cmd False s) \<and>
         executed (state_of (exCall sh newWebSocket cmd ip port s)) = executed s @ [cmd] \<and>
         opened (state_of (exCall sh newWebSocket cmd ip port s)) = opened s \<and>
         returned (exCall sh newWebSocket cmd ip port s) = fst (sh cmd (fsys s)) \<and>
         (\<not> fst (sh cmd (fsys s)) \<longrightarrow> (\<exists>s'. exCall sh newWebSocket cmd ip port s = Exited 1 s'))"
proof -
  have e: "exCall sh newWebSocket cmd ip port s = discard (runCommand sh cmd False s)"
    using assms by (simp add: exCall_def)
  have x: "\<not> fst (sh cmd (fsys s)) \<longrightarrow> (\<exists>s'. exCall sh newWebSocket cmd ip port s = Exited 1 s')"
  proof
    assume "\<not> fst (sh cmd (fsys s))"
    then obtain s' where "runCommand sh cmd False s = Exited 1 s'"
      using runCommand_exit_code by blast
    then show "\<exists>s'. exCall sh newWebSocket cmd ip port s = Exited 1 s'"
      unfolding e by (simp add: discard_def)
  qed
  show ?thesis
    using x unfolding e
    by (simp add: runCommand_executed runCommand_opened runCommand_returned)
qed

theorem exCall_local_witness:
  "exCall plain_shell (\<lambda>url. None) ''make'' None 8086 new_builder
     = Returned () ((emit (ExecSync ''make'') new_builder)) \<and>
   opened (state_of (exCall plain_shell (\<lambda>url. None) ''make'' None 8086 new_builder)) = [] \<and>
   (\<exists>s'. exCall plain_shell (\<lambda>url. None) ''false'' None 8086 new_builder = Exited 1 s')"
proof -
  have a: "\<not> allowExternalCommands new_builder"
    by (simp add: new_builder_def constructor_def)
  have "exCall plain_shell (\<lambda>url. None) ''make'' None 8086 new_builder
     = Returned () ((emit (ExecSync ''make'') new_builder))"
    using exCall_local [OF a, of plain_shell "\<lambda>url. None" "''make''" None 8086]
    by (simp add: runCommand_def plain_shell_def verbose_def new_builder_def constructor_def
          discard_def emit_def)
  moreover have "opened (state_of (exCall plain_shell (\<lambda>url. None) ''make'' None 8086 new_builder)) = []"
    using exCall_local [OF a, of plain_shell "\<lambda>url. None" "''make''" None 8086]
    by (simp add: opened_def new_builder_def constructor_def)
  moreover have "\<exists>s'. exCall plain_shell (\<lambda>url. None) ''false'' None 8086 new_builder = Exited 1 s'"
  proof -
    have "\<not> fst (plain_shell ''false'' (fsys new_builder))"
      by (simp add: plain_shell_def)
    then show ?thesis
      using exCall_local [OF a, of plain_shell "\<lambda>url. None" "''false''" None 8086] by blast
  qed
  ultimately show ?thesis by blast
qed

subsection \<open>Registered options\<close>

lemma mutate_length [simp]: "length (heap (mutate a m s)) = length (heap s)"
  by (cases m) simp_all

lemma mutate_args [simp]: "args (mutate a m s) = args s"
  by (cases m) simp_all

lemma mutate_other [simp]: "b \<noteq> a \<Longrightarrow> heap (mutate a m s) ! b = heap s ! b"
  by (cases m) simp_all

lemma mutations_frame:
  "b \<noteq> a \<Longrightarrow> heap (mutations a ms s) ! b = heap s ! b \<and> args (mutations a ms s) = args s"
  by (induction ms arbitrary: s) simp_all

text \<open>
  Claim C9 says that after \<^verbatim>\<open>addArgument(a)\<close> no later mutation of the caller's object
  changes the option that is stored. \<^verbatim>\<open>Object.assign\<close> copies one level: a property of
  \<open>a\<close> that refers to another object refers to the same object in the copy. With
  \<^verbatim>\<open>a = { name: 'opt', nested: { x: 1 } }\<close>, the assignment \<^verbatim>\<open>a.nested.x = 2\<close> after the
  registration is seen through the stored option, whose \<^verbatim>\<open>nested.x\<close> goes from 1 to 2.
\<close>

theorem addArgument_shares_nested_objects:
  "args (addArgument 0 nested_option_builder) = [2] \<and>
   property_at (heap (addArgument 0 nested_option_builder)) 2 [''nested'', ''x''] = Some (Num 1) \<and>
   property_at (heap (assign_path 0 [''nested'', ''x''] (Num 2)
                        (addArgument 0 nested_option_builder))) 2 [''nested'', ''x'']
     = Some (Num 2)"
  by (simp add: nested_option_builder_def new_builder_def constructor_def addArgument_def)

text \<open>
  Claim C9, amended. \<^verbatim>\<open>addArgument\<close> puts into the registry the address of a new object,
  not the address it was given, and the new object has the properties the caller's
  object had at that moment, with the same values (so a value that refers to an object
  refers to the same object in both). Whatever properties the caller then assigns or
  deletes on its own object, the registry and the stored object stay as they were.
\<close>

theorem addArgument_stores_copy:
  assumes "a < length (heap s)"
  shows "args (addArgument a s) = args s @ [length (heap s)] \<and>
         length (heap s) \<noteq> a \<and>
         heap (addArgument a s) ! length (heap s) = heap s ! a \<and>
         args (mutations a ms (addArgument a s)) = args (addArgument a s) \<and>
         heap (mutations a ms (addArgument a s)) ! length (heap s) = heap s ! a"
proof -
  have n: "length (heap s) \<noteq> a"
    using assms by simp
  have c: "heap (addArgument a s) ! length (heap s) = heap s ! a"
    using assms by (simp add: addArgument_def Let_def)
  have "heap (mutations a ms (addArgument a s)) ! length (heap s)
          = heap (addArgument a s) ! length (heap s)"
    and "args (mutations a ms (addArgument a s)) = args (addArgument a s)"
    using mutations_frame [OF n, of ms "addArgument a s"] by simp_all
  then show ?thesis
    using n c by (simp add: addArgument_def Let_def)
qed

theorem addArgument_stores_copy_witness:
  "args (mutations 0 [SetProperty ''name'' (Str ''other''), DeleteProperty ''description'']
           (addArgument 0 (new_builder\<lparr> heap := [[''name'' \<mapsto> Str ''name'',
                                                     ''description'' \<mapsto> Str ''Your name'',
                                                     ''requiresArg'' \<mapsto> Bool True]] \<rparr>))) = [1] \<and>
   heap (mutations 0 [SetProperty ''name'' (Str ''other''), DeleteProperty ''description'']
           (addArgument 0 (new_builder\<lparr> heap := [[''name'' \<mapsto> Str ''name'',
                                                     ''description'' \<mapsto> Str ''Your name'',
                                                     ''requiresArg'' \<mapsto> Bool True]] \<rparr>))) ! 1
     = [''name'' \<mapsto> Str ''name'', ''description'' \<mapsto> Str ''Your name'',
        ''requiresArg'' \<mapsto> Bool True] \<and>
   (heap (mutations 0 [SetProperty ''name'' (Str ''other''), DeleteProperty ''description'']
           (addArgument 0 (new_builder\<lparr> heap := [[''name'' \<mapsto> Str ''name'',
                                                     ''description'' \<mapsto> Str ''Your name'',
                                                     ''requiresArg'' \<mapsto> Bool True]] \<rparr>))) ! 0) ''name''
     = Some (Str ''other'')"
proof -
  let ?s = "new_builder\<lparr> heap := [[''name'' \<mapsto> Str ''name'',
                                     ''description'' \<mapsto> Str ''Your name'',
                                     ''requiresArg'' \<mapsto> Bool True]] \<rparr>"
  let ?ms = "[SetProperty ''name'' (Str ''other''), DeleteProperty ''description'']"
  have a: "0 < length (heap ?s)" by simp
  have ar: "args ?s = []"
    by (simp add: new_builder_def constructor_def)
  have "args (mutations 0 ?ms (addArgument 0 ?s)) = [1]"
    using addArgument_stores_copy [OF a, of ?ms] by (simp add: ar)
  moreover have "heap (mutations 0 ?ms (addArgument 0 ?s)) ! 1
     = [''name'' \<mapsto> Str ''name'', ''description'' \<mapsto> Str ''Your name'',
        ''requiresArg'' \<mapsto> Bool True]"
    using addArgument_stores_copy [OF a, of ?ms] by simp
  moreover have "(heap (mutations 0 ?ms (addArgument 0 ?s)) ! 0) ''name'' = Some (Str ''other'')"
    by (simp add: addArgument_def)
  ultimately show ?thesis by blast
qed

subsection \<open>Replacing an extension\<close>

lemma getSubstitution_plain:
  "CHR ''$'' \<notin> set ext \<Longrightarrow> getSubstitution m p f ext = ext"
  by (induction m p f ext rule: getSubstitution.induct) auto

lemma indexOf_empty: "indexOf f [] = Some 0"
  by (cases f) simp_all

text \<open>
  Claim C10 says that for a name without an extension \<^verbatim>\<open>extension\<close> gives the new
  extension followed by the name, whatever the non-empty extension is. The extension is
  the replacement text of \<^verbatim>\<open>replace\<close>, where a dollar sign can start a pattern: with
  \<^verbatim>\<open>$&\<close> for the extension, the matched text is empty and the name comes back alone.
\<close>

theorem extension_without_extname_counterexample:
  "extname ''file'' = [] \<and> ''$&'' \<noteq> [] \<and> extension ''file'' ''$&'' = ''file'' \<and>
   extension ''file'' ''$&'' \<noteq> ''$&'' @ ''file''"
  by (simp add: extension_def extname_def replace_def)

text \<open>
  Claim C10, amended. For a name without an extension, \<^verbatim>\<open>extension\<close> gives the name with
  the expanded replacement text put before it (the match is the empty string at index
  0, nothing is before it and the whole name after it). When the new extension has no
  dollar sign in it, that is the new extension followed by the name, as for
  \<^verbatim>\<open>extension("file", ".o")\<close>, which is \<^verbatim>\<open>.ofile\<close>.
\<close>

theorem extension_without_extname:
  assumes "extname f = []"
  shows "extension f ext = getSubstitution [] [] f ext @ f \<and>
         (CHR ''$'' \<notin> set ext \<longrightarrow> extension f ext = ext @ f)"
  using assms by (simp add: extension_def replace_def indexOf_empty getSubstitution_plain)

theorem extension_without_extname_witness:
  "extname ''file'' = [] \<and> extension ''file'' ''.o'' = ''.ofile''"
  using extension_without_extname [of "''file''" "''.o''"]
  by (simp add: extname_def)

subsection \<open>Scanning\<close>

lemma excluded_condition:
  "((case ignores of None \<Rightarrow> False | Some r \<Rightarrow> r n) \<or>
    (case matches of None \<Rightarrow> False | Some r \<Rightarrow> \<not> r n)) = excluded matches ignores n"
  by (simp add: excluded_def)

lemma scanDir_lists:
  "(readable node \<longrightarrow> (\<forall>es. node = Directory es \<longrightarrow>
      scanDir path node matches ignores
        = Inr (map fst (filter (\<lambda>e. \<not> excluded matches ignores (snd e)) (files_below path es)))))"
  and scanDir_loop_lists:
  "(readable_entries files \<longrightarrow>
      scanDir_loop path matches ignores fnames files
        = Inr (fnames @ map fst (filter (\<lambda>e. \<not> excluded matches ignores (snd e))
                                  (files_below path files))))"
proof (induction path node matches ignores and path matches ignores fnames files
       rule: scanDir_scanDir_loop.induct)
  case (1 path files matches ignores)
  then show ?case by simp
next
  case (2 path matches ignores)
  then show ?case by simp
next
  case (3 path matches ignores)
  then show ?case by simp
next
  case (4 path matches ignores fnames)
  then show ?case by simp
next
  case (5 path matches ignores fnames file_name entry rest)
  show ?case
  proof (cases entry)
    case File
    show ?thesis
    proof (cases "excluded matches ignores file_name")
      case True
      then show ?thesis using File "5.IH"(3) by (simp add: excluded_condition)
    next
      case False
      then show ?thesis using File "5.IH"(4) by (simp add: excluded_condition)
    qed
  next
    case (Directory sub)
    then show ?thesis using 5 by simp
  next
    case Denied
    then show ?thesis by simp
  qed
qed

lemma files_below_names:
  "(p, n) \<in> set (files_below path es) \<Longrightarrow> \<exists>d. p = joinPath [d, n]"
  by (induction path es rule: files_below.induct) auto

text \<open>
  Claim C7 says, with the description of \<^verbatim>\<open>scanDir\<close> in the source (\<^emph>\<open>an array of
  files, relative to the path sent\<close>), that the paths returned are relative to the
  directory scanned, so that a tree with \<^verbatim>\<open>a.txt\<close>, \<^verbatim>\<open>b.log\<close> and \<^verbatim>\<open>sub/c.txt\<close> scanned for
  \<^verbatim>\<open>/\.txt$/\<close> gives \<^verbatim>\<open>a.txt\<close> and \<^verbatim>\<open>sub/c.txt\<close>. \<^verbatim>\<open>scanDir\<close> pushes the path it was called
  with, joined with the name: scanning that tree as \<^verbatim>\<open>proj\<close> gives \<^verbatim>\<open>proj/a.txt\<close> and
  \<^verbatim>\<open>proj/sub/c.txt\<close>.
\<close>

theorem scanDir_paths_not_relative:
  "scanDir ''proj'' example_tree (Some (endsWith ''.txt'')) None
     = Inr [''proj/a.txt'', ''proj/sub/c.txt''] \<and>
   scanDir ''proj'' example_tree (Some (endsWith ''.txt'')) None \<noteq> Inr [''a.txt'', ''sub/c.txt'']"
  by (simp add: example_tree_def endsWith_def joinPath_def normalize_def)

text \<open>
  The rest of what is said of \<^verbatim>\<open>scanDir\<close> holds, for patterns without the sticky flag.
  On a tree whose directories can all be read it returns the paths of \<open>files_below\<close>, in that order, less the excluded ones:
  only entries that are not directories, from every subdirectory whatever its name, an
  entry being left out exactly when the ignore pattern matches its name or a given
  match pattern does not. Scanned as \<^verbatim>\<open>.\<close>, the tree above gives \<^verbatim>\<open>a.txt\<close> and
  \<^verbatim>\<open>sub/c.txt\<close>.
\<close>

theorem scanDir_files_below:
  assumes "readable (Directory files)"
  shows "scanDir path (Directory files) matches ignores
           = Inr (map fst (filter (\<lambda>e. \<not> excluded matches ignores (snd e))
                             (files_below path files)))"
  using assms scanDir_lists [of "Directory files" path matches ignores] by blast

theorem scanDir_files_below_witness:
  "scanDir ''.'' example_tree (Some (endsWith ''.txt'')) None = Inr [''a.txt'', ''sub/c.txt''] \<and>
   scanDir ''.'' example_tree None (Some (endsWith ''.log'')) = Inr [''a.txt'', ''sub/c.txt''] \<and>
   scanDir ''.'' (Directory [(''sub.log'', Directory [(''c.txt'', File)])])
     (Some (endsWith ''.txt'')) (Some (endsWith ''.log'')) = Inr [''sub.log/c.txt'']"
proof -
  have r: "readable (Directory [(''a.txt'', File), (''b.log'', File),
                                (''sub'', Directory [(''c.txt'', File)])])"
    by simp
  have r2: "readable (Directory [(''sub.log'', Directory [(''c.txt'', File)])])"
    by simp
  have "scanDir ''.'' example_tree (Some (endsWith ''.txt'')) None = Inr [''a.txt'', ''sub/c.txt'']"
    unfolding example_tree_def
    using scanDir_files_below [OF r, of "''.''" "Some (endsWith ''.txt'')" None]
    by (simp add: excluded_def endsWith_def joinPath_def normalize_def)
  moreover have "scanDir ''.'' example_tree None (Some (endsWith ''.log'')) = Inr [''a.txt'', ''sub/c.txt'']"
    unfolding example_tree_def
    using scanDir_files_below [OF r, of "''.''" None "Some (endsWith ''.log'')"]
    by (simp add: excluded_def endsWith_def joinPath_def normalize_def)
  moreover have "scanDir ''.'' (Directory [(''sub.log'', Directory [(''c.txt'', File)])])
     (Some (endsWith ''.txt'')) (Some (endsWith ''.log'')) = Inr [''sub.log/c.txt'']"
    using scanDir_files_below [OF r2, of "''.''" "Some (endsWith ''.txt'')" "Some (endsWith ''.log'')"]
    by (simp add: excluded_def endsWith_def joinPath_def normalize_def)
  ultimately show ?thesis by blast
qed

end
